theory Spec2Isabelle
  imports Complex_Main
begin

section \<open>Conventions\<close>

text \<open>
  The development follows \<^verbatim>\<open>app/utils/dlp.py\<close>, \<^verbatim>\<open>app/utils/crypto_utils.py\<close> and
  \<^verbatim>\<open>app/routes/backup_routes.py\<close>.

  \<^item> A Python \<^verbatim>\<open>str\<close> is a \<^typ>\<open>string\<close>, one \<^typ>\<open>char\<close> per code point; the model
    therefore covers texts whose code points are below 256, and the character classes
    below are Python's classes on that range.
  \<^item> A Python \<^verbatim>\<open>float\<close> is a \<^typ>\<open>real\<close>: arithmetic is exact, there is no NaN and no
    infinity.
  \<^item> A Python \<^verbatim>\<open>dict\<close> is an association list in insertion order; its keys are distinct.
\<close>

type_synonym hits_dict = "(string \<times> string list) list"

section \<open>Characters and strings\<close>

text \<open>
  The classes \<^verbatim>\<open>\d\<close>, \<^verbatim>\<open>\w\<close>, \<^verbatim>\<open>\s\<close> of Python's \<^verbatim>\<open>re\<close> on \<^verbatim>\<open>str\<close> patterns, and
  \<^verbatim>\<open>str.lower\<close>, restricted to code points below 256.
\<close>

definition codepoint :: "char \<Rightarrow> nat" where
  "codepoint c = of_char c"

definition is_digit :: "char \<Rightarrow> bool" where
  "is_digit c = (48 \<le> codepoint c \<and> codepoint c \<le> 57)"

definition is_upper :: "char \<Rightarrow> bool" where
  "is_upper c = (65 \<le> codepoint c \<and> codepoint c \<le> 90)"

definition is_lower :: "char \<Rightarrow> bool" where
  "is_lower c = (97 \<le> codepoint c \<and> codepoint c \<le> 122)"

definition is_word :: "char \<Rightarrow> bool" where
  "is_word c =
     (is_digit c \<or> is_upper c \<or> is_lower c \<or> codepoint c = 95
      \<or> codepoint c = 170 \<or> codepoint c = 178 \<or> codepoint c = 179 \<or> codepoint c = 181
      \<or> codepoint c = 185 \<or> codepoint c = 186
      \<or> (188 \<le> codepoint c \<and> codepoint c \<le> 190)
      \<or> (192 \<le> codepoint c \<and> codepoint c \<le> 214)
      \<or> (216 \<le> codepoint c \<and> codepoint c \<le> 246)
      \<or> 248 \<le> codepoint c)"

definition is_space :: "char \<Rightarrow> bool" where
  "is_space c =
     ((9 \<le> codepoint c \<and> codepoint c \<le> 13) \<or> (28 \<le> codepoint c \<and> codepoint c \<le> 32)
      \<or> codepoint c = 133 \<or> codepoint c = 160)"

definition lower_char :: "char \<Rightarrow> char" where
  "lower_char c =
     (if is_upper c \<or> (192 \<le> codepoint c \<and> codepoint c \<le> 222 \<and> codepoint c \<noteq> 215)
      then char_of (codepoint c + 32) else c)"

definition str_lower :: "string \<Rightarrow> string" where
  "str_lower s = map lower_char s"

text \<open>The slice \<^verbatim>\<open>xs[a:b]\<close> for \<open>0 \<le> a\<close>, \<open>0 \<le> b\<close>; Python clips it to the list.\<close>

definition slice :: "'a list \<Rightarrow> nat \<Rightarrow> nat \<Rightarrow> 'a list" where
  "slice xs a b = take (b - a) (drop a xs)"

definition startswith :: "'a list \<Rightarrow> 'a list \<Rightarrow> bool" where
  "startswith s p = (take (length p) s = p)"

text \<open>\<^verbatim>\<open>needle in s\<close> on strings.\<close>

fun str_contains :: "string \<Rightarrow> string \<Rightarrow> bool" where
  "str_contains needle [] = (needle = [])"
| "str_contains needle (x # xs) = (startswith (x # xs) needle \<or> str_contains needle xs)"

text \<open>\<^verbatim>\<open>s.strip()\<close>: whitespace removed at both ends.\<close>

definition str_strip :: "string \<Rightarrow> string" where
  "str_strip s = rev (dropWhile is_space (rev (dropWhile is_space s)))"

text \<open>
  \<^verbatim>\<open>s.replace(old, new)\<close>: every occurrence of \<open>old\<close>, left to right and without
  overlap; for an empty \<open>old\<close> Python inserts \<open>new\<close> before every character and at the end.
\<close>

function str_replace :: "string \<Rightarrow> string \<Rightarrow> string \<Rightarrow> string" where
  "str_replace s old new =
     (if old = [] then concat (map (\<lambda>c. new @ [c]) s) @ new
      else if s = [] then []
      else if startswith s old then new @ str_replace (drop (length old) s) old new
      else hd s # str_replace (tl s) old new)"
  by pat_completeness auto
termination
  by (relation "measure (\<lambda>(s, old, new). length s)") auto

declare str_replace.simps [simp del]

section \<open>Regular expressions (\<^verbatim>\<open>re\<close>)\<close>

text \<open>
  A backtracking matcher with the priorities of Python's \<^verbatim>\<open>re\<close>: \<open>ends r t (i, c)\<close> lists
  the states (end position, captured groups) that \<open>r\<close> can reach from position \<open>i\<close> of \<open>t\<close>,
  in the order in which the backtracking search tries them. The match found at \<open>i\<close> is the
  first of the list. A greedy repetition tries one more round before it stops, a lazy one
  stops first. An unbounded repetition is bounded by the length of the text: every
  repeated expression of this module consumes a character in each round.
\<close>

datatype regex =
    Eps
  | Cls "char \<Rightarrow> bool"
  | Bnd
  | Seq regex regex
  | Alt regex regex
  | Rep nat "nat option" bool regex
  | Grp nat regex

type_synonym caps = "(nat \<times> nat \<times> nat) list"
type_synonym mstate = "nat \<times> caps"
type_synonym rmatch = "nat \<times> nat \<times> caps"

text \<open>\<^verbatim>\<open>\b\<close>: exactly one of the characters before and after position \<open>i\<close> is a word character.\<close>

definition at_boundary :: "string \<Rightarrow> nat \<Rightarrow> bool" where
  "at_boundary t i =
     ((0 < i \<and> i \<le> length t \<and> is_word (t ! (i - 1))) \<noteq> (i < length t \<and> is_word (t ! i)))"

fun rep :: "(mstate \<Rightarrow> mstate list) \<Rightarrow> nat \<Rightarrow> nat \<Rightarrow> bool \<Rightarrow> mstate \<Rightarrow> mstate list" where
  "rep f lo 0 g s = (if lo = 0 then [s] else [])"
| "rep f lo (Suc h) g s =
     (let more = concat (map (rep f (lo - 1) h g) (f s));
          stop = (if lo = 0 then [s] else [])
      in if g then more @ stop else stop @ more)"

primrec ends :: "regex \<Rightarrow> string \<Rightarrow> mstate \<Rightarrow> mstate list" where
  "ends Eps t = (\<lambda>s. [s])"
| "ends (Cls P) t = (\<lambda>(i, c). if i < length t \<and> P (t ! i) then [(Suc i, c)] else [])"
| "ends Bnd t = (\<lambda>(i, c). if at_boundary t i then [(i, c)] else [])"
| "ends (Seq a b) t = (\<lambda>s. concat (map (ends b t) (ends a t s)))"
| "ends (Alt a b) t = (\<lambda>s. ends a t s @ ends b t s)"
| "ends (Rep lo hi g r) t = rep (ends r t) lo (case hi of None \<Rightarrow> length t | Some h \<Rightarrow> h) g"
| "ends (Grp n r) t = (\<lambda>(i, c). map (\<lambda>(e, c'). (e, (n, i, e) # c')) (ends r t (i, c)))"

definition match_at :: "regex \<Rightarrow> string \<Rightarrow> nat \<Rightarrow> mstate option" where
  "match_at r t i = (case ends r t (i, []) of [] \<Rightarrow> None | s # _ \<Rightarrow> Some s)"

text \<open>
  \<^verbatim>\<open>regex.finditer(text)\<close>: the matches from left to right, without overlap. No pattern
  of this module matches the empty string; after an empty match the scan moves one
  character on.
\<close>

function finditer_from :: "regex \<Rightarrow> string \<Rightarrow> nat \<Rightarrow> rmatch list" where
  "finditer_from r t i =
     (if length t < i then []
      else case match_at r t i of
             None \<Rightarrow> finditer_from r t (Suc i)
           | Some (e, c) \<Rightarrow> (i, e, c) # finditer_from r t (max e (Suc i)))"
  by pat_completeness auto
termination
  by (relation "measure (\<lambda>(r, t, i). Suc (length t) - i)") auto

declare finditer_from.simps [simp del]

definition finditer :: "regex \<Rightarrow> string \<Rightarrow> rmatch list" where
  "finditer r t = finditer_from r t 0"

text \<open>\<^verbatim>\<open>m.group(0)\<close>, \<^verbatim>\<open>m.group(n)\<close> and \<^verbatim>\<open>(m.start(), m.end())\<close>.\<close>

definition group0 :: "string \<Rightarrow> rmatch \<Rightarrow> string" where
  "group0 t m = (case m of (s, e, c) \<Rightarrow> slice t s e)"

definition groupn :: "nat \<Rightarrow> string \<Rightarrow> rmatch \<Rightarrow> string" where
  "groupn n t m = (case m of (s, e, c) \<Rightarrow>
     (case map_of c n of None \<Rightarrow> [] | Some (a, b) \<Rightarrow> slice t a b))"

definition m_span :: "rmatch \<Rightarrow> nat \<times> nat" where
  "m_span m = (case m of (s, e, c) \<Rightarrow> (s, e))"

subsection \<open>Pattern syntax\<close>

fun seqs :: "regex list \<Rightarrow> regex" where
  "seqs [] = Eps"
| "seqs [r] = r"
| "seqs (r # rs) = Seq r (seqs rs)"

fun alts :: "regex list \<Rightarrow> regex" where
  "alts [] = Eps"
| "alts [r] = r"
| "alts (r # rs) = Alt r (alts rs)"

definition re_chr :: "char \<Rightarrow> regex" where
  "re_chr x = Cls (\<lambda>c. c = x)"

definition re_lit :: "string \<Rightarrow> regex" where
  "re_lit s = seqs (map re_chr s)"

text \<open>A lower-case literal under \<^verbatim>\<open>re.IGNORECASE\<close>.\<close>

definition re_lit_ci :: "string \<Rightarrow> regex" where
  "re_lit_ci s = seqs (map (\<lambda>x. Cls (\<lambda>c. lower_char c = x)) s)"

definition re_exactly :: "nat \<Rightarrow> regex \<Rightarrow> regex" where
  "re_exactly n r = Rep n (Some n) True r"

definition re_between :: "nat \<Rightarrow> nat \<Rightarrow> regex \<Rightarrow> regex" where
  "re_between lo hi r = Rep lo (Some hi) True r"

definition re_opt :: "regex \<Rightarrow> regex" where
  "re_opt r = Rep 0 (Some 1) True r"

definition re_star :: "regex \<Rightarrow> regex" where
  "re_star r = Rep 0 None True r"

definition re_star_lazy :: "regex \<Rightarrow> regex" where
  "re_star_lazy r = Rep 0 None False r"

definition re_plus :: "regex \<Rightarrow> regex" where
  "re_plus r = Rep 1 None True r"

definition re_digit :: regex where
  "re_digit = Cls is_digit"

definition re_upper :: regex where
  "re_upper = Cls is_upper"

subsection \<open>The patterns of \<^verbatim>\<open>dlp.py\<close>\<close>

text \<open>\<^verbatim>\<open>\b\d{12}\b\<close>\<close>

definition AADHAAR_RE :: regex where
  "AADHAAR_RE = seqs [Bnd, re_exactly 12 re_digit, Bnd]"

text \<open>\<^verbatim>\<open>\b[A-Z]{5}[0-9]{4}[A-Z]\b\<close>\<close>

definition PAN_RE :: regex where
  "PAN_RE = seqs [Bnd, re_exactly 5 re_upper, re_exactly 4 re_digit, re_upper, Bnd]"

text \<open>\<^verbatim>\<open>\b(?:\d[ -]*?){13,19}\b\<close>\<close>

definition is_sep :: "char \<Rightarrow> bool" where
  "is_sep c = (c = CHR '' '' \<or> c = CHR ''-'')"

definition CC_RE :: regex where
  "CC_RE = seqs [Bnd, re_between 13 19 (Seq re_digit (re_star_lazy (Cls is_sep))), Bnd]"

text \<open>\<^verbatim>\<open>[A-Za-z0-9._%+-]+@[A-Za-z0-9.-]+\.[A-Za-z]{2,}\<close>\<close>

definition email_local :: "char \<Rightarrow> bool" where
  "email_local c = (is_upper c \<or> is_lower c \<or> is_digit c \<or> c \<in> set ''._%+-'')"

definition email_domain :: "char \<Rightarrow> bool" where
  "email_domain c = (is_upper c \<or> is_lower c \<or> is_digit c \<or> c \<in> set ''.-'')"

definition EMAIL_RE :: regex where
  "EMAIL_RE = seqs [re_plus (Cls email_local), re_chr CHR ''@'', re_plus (Cls email_domain),
     re_chr CHR ''.'', Rep 2 None True (Cls (\<lambda>c. is_upper c \<or> is_lower c))]"

text \<open>\<^verbatim>\<open>(?:\+91[\-\s]?|0)?[6-9]\d{9}\b\<close>\<close>

definition PHONE_RE :: regex where
  "PHONE_RE = seqs [
     re_opt (Alt (seqs [re_lit ''+91'', re_opt (Cls (\<lambda>c. c = CHR ''-'' \<or> is_space c))])
                 (re_chr CHR ''0'')),
     Cls (\<lambda>c. 54 \<le> codepoint c \<and> codepoint c \<le> 57), re_exactly 9 re_digit, Bnd]"

text \<open>\<^verbatim>\<open>\b[A-Z][0-9]{7}\b\<close>\<close>

definition PASSPORT_RE :: regex where
  "PASSPORT_RE = seqs [Bnd, re_upper, re_exactly 7 re_digit, Bnd]"

text \<open>\<^verbatim>\<open>(password|passwd|pwd|passcode|pass:)\s*[:#\-]?\s*([^\s,;]{4,40})\<close> with \<^verbatim>\<open>re.IGNORECASE\<close>\<close>

definition is_token_char :: "char \<Rightarrow> bool" where
  "is_token_char c = (\<not> is_space c \<and> c \<noteq> CHR '','' \<and> c \<noteq> CHR '';'')"

definition PASSWORD_RE :: regex where
  "PASSWORD_RE = seqs [
     Grp 1 (alts [re_lit_ci ''password'', re_lit_ci ''passwd'', re_lit_ci ''pwd'',
                  re_lit_ci ''passcode'', re_lit_ci ''pass:'']),
     re_star (Cls is_space), re_opt (Cls (\<lambda>c. c \<in> set '':#-'')), re_star (Cls is_space),
     Grp 2 (re_between 4 40 (Cls is_token_char))]"

text \<open>\<^verbatim>\<open>\b\d{9,18}\b\<close>\<close>

definition BANK_AC_RE :: regex where
  "BANK_AC_RE = seqs [Bnd, re_between 9 18 re_digit, Bnd]"

text \<open>\<^verbatim>\<open>\b[A-Z]{4}0[A-Z0-9]{6}\b\<close>\<close>

definition IFSC_RE :: regex where
  "IFSC_RE = seqs [Bnd, re_exactly 4 re_upper, re_chr CHR ''0'',
     re_exactly 6 (Cls (\<lambda>c. is_upper c \<or> is_digit c)), Bnd]"

text \<open>\<^verbatim>\<open>\b\d{3,4}\b\<close>\<close>

definition CVV_RE :: regex where
  "CVV_RE = seqs [Bnd, re_between 3 4 re_digit, Bnd]"

definition SENSITIVE_KEYWORDS :: "string list" where
  "SENSITIVE_KEYWORDS =
     [''aadhaar'', ''pan'', ''credit card'', ''card number'', ''cvv'', ''upi'',
      ''password'', ''pwd'', ''passport'', ''passport no'', ''bank account'',
      ''account number'', ''ifsc'', ''salary'', ''payroll'', ''ssn'', ''social security'',
      ''secret'', ''confidential'']"

section \<open>Scanning one file (\<^verbatim>\<open>dlp.py\<close>)\<close>

subsection \<open>Exceptions and the environment\<close>

text \<open>
  A raised exception is a value. \<open>HTTPException\<close> carries the status code and the detail,
  \<open>ValueError\<close> its message; \<open>Exception\<close> stands for any other exception, raised by the
  operating system or by a library.
\<close>

datatype exn = HTTPException nat string | ValueError string | Exception string

text \<open>
  The embedding model and the trained classifier are libraries outside the repository.
  The environment gives their outcome on a text: \<open>ai_similarity\<close> is the largest cosine
  similarity between the text and the keywords, \<open>load_ml_model\<close> is the classifier loaded
  from the model file, if there is one, as the probability it predicts.
\<close>

record env =
  HAS_AI :: bool
  ai_similarity :: "string \<Rightarrow> exn + real"
  HAS_ML :: bool
  load_ml_model :: "exn + (string \<Rightarrow> exn + real) option"

text \<open>
  What the program reads of the file system and of the clock. \<open>rglob\<close> lists the entries
  below a root in the order of \<^verbatim>\<open>Path.rglob("*")\<close>; \<open>decode_ignore\<close> is
  \<^verbatim>\<open>bytes.decode(errors="ignore")\<close>; \<open>walk\<close> lists the pairs (directory, file names) of
  \<^verbatim>\<open>os.walk\<close>; \<open>write_fails\<close> tells the destinations that cannot be written.
  Bytes are characters as well. The source tree is read as it is before the backup: the
  destination tree is taken to lie outside it.
\<close>

record world =
  path_exists :: "string \<Rightarrow> bool"
  rglob :: "string \<Rightarrow> string list"
  is_file :: "string \<Rightarrow> bool"
  read_bytes :: "string \<Rightarrow> exn + string"
  decode_ignore :: "string \<Rightarrow> string"
  walk :: "string \<Rightarrow> (string \<times> string list) list"
  write_fails :: "string \<Rightarrow> bool"
  abspath :: "string \<Rightarrow> string"
  now_isoformat :: string

subsection \<open>Helper functions\<close>

definition digit_value :: "char \<Rightarrow> nat" where
  "digit_value c = codepoint c - 48"

fun luhn_loop :: "nat \<Rightarrow> nat \<Rightarrow> nat list \<Rightarrow> nat \<Rightarrow> nat" where
  "luhn_loop parity i [] checksum = checksum"
| "luhn_loop parity i (d # ds) checksum =
     (let d' = (if i mod 2 = parity then (if 2 * d > 9 then 2 * d - 9 else 2 * d) else d)
      in luhn_loop parity (Suc i) ds (checksum + d'))"

definition luhn_check :: "string \<Rightarrow> bool" where
  "luhn_check number_str =
     (let digits = map digit_value (filter is_digit number_str) in
      if length digits < 13 \<or> length digits > 19 then False
      else luhn_loop (length digits mod 2) 0 digits 0 mod 10 = 0)"

definition read_file_safe :: "world \<Rightarrow> string \<Rightarrow> nat \<Rightarrow> string" where
  "read_file_safe w path max_bytes =
     (case read_bytes w path of
        Inl e \<Rightarrow> []
      | Inr raw \<Rightarrow> decode_ignore w (if length raw > max_bytes then take max_bytes raw else raw))"

definition find_snippets :: "string \<Rightarrow> (nat \<times> nat) list \<Rightarrow> nat \<Rightarrow> string list" where
  "find_snippets text match_spans context =
     map (\<lambda>(s, e).
            let start = s - context;
                stop = min (length text) (e + context);
                snippet = str_replace (str_replace (slice text start stop)
                            [char_of (10 :: nat)] '' '') [char_of (13 :: nat)] '' ''
            in str_strip snippet) match_spans"

subsection \<open>Context score\<close>

definition compute_context_score_ai :: "env \<Rightarrow> string \<Rightarrow> exn + real" where
  "compute_context_score_ai env text = (if \<not> HAS_AI env then Inr 0 else ai_similarity env text)"

definition predict_context_ml :: "env \<Rightarrow> string \<Rightarrow> exn + real" where
  "predict_context_ml env text =
     (if \<not> HAS_ML env then Inr 0
      else case load_ml_model env of
             Inl e \<Rightarrow> Inl e
           | Inr None \<Rightarrow> Inr 0
           | Inr (Some predict_proba) \<Rightarrow> predict_proba text)"

text \<open>\<^verbatim>\<open>sum(1 for kw in SENSITIVE_KEYWORDS if kw in text.lower())\<close>\<close>

definition keyword_hits :: "string \<Rightarrow> nat" where
  "keyword_hits text = length (filter (\<lambda>kw. str_contains kw (str_lower text)) SENSITIVE_KEYWORDS)"

definition context_score :: "env \<Rightarrow> string \<Rightarrow> exn + real" where
  "context_score env text =
     (let h = keyword_hits text;
          h_score = min 1 (real h / 6)
      in case compute_context_score_ai env text of
           Inl e \<Rightarrow> Inl e
         | Inr ai_score \<Rightarrow>
             (case predict_context_ml env text of
                Inl e \<Rightarrow> Inl e
              | Inr ml_score \<Rightarrow>
                  Inr (min (3 / 10 * h_score + 4 / 10 * ai_score + 3 / 10 * ml_score) 1)))"

section \<open>Risk scoring (\<^verbatim>\<open>dlp.py\<close>)\<close>

text \<open>
  Python's built-in \<^verbatim>\<open>round\<close> on a float rounds to the nearest integer and sends a tie
  to the even neighbour.
\<close>

definition py_round :: "real \<Rightarrow> int" where
  "py_round x =
     (let f = \<lfloor>x\<rfloor>; d = x - of_int f in
      if d < 1 / 2 then f
      else if 1 / 2 < d then f + 1
      else if even f then f else f + 1)"

text \<open>\<^verbatim>\<open>conf_map.get(confidence, 0)\<close> with \<^verbatim>\<open>conf_map = {"low": 0, "medium": 10, "high": 20}\<close>.\<close>

definition conf_boost :: "string \<Rightarrow> int" where
  "conf_boost confidence =
     (if confidence = ''low'' then 0
      else if confidence = ''medium'' then 10
      else if confidence = ''high'' then 20
      else 0)"

definition compute_risk_score :: "hits_dict \<Rightarrow> string \<Rightarrow> real \<Rightarrow> int" where
  "compute_risk_score hits confidence context_score' =
     (let n_types = int (length hits);
          base = 20 * n_types;
          raw = of_int (base + conf_boost confidence) * (1 + context_score')
      in max 0 (min 100 (py_round raw)))"

definition risk_label :: "int \<Rightarrow> string" where
  "risk_label score =
     (if score \<ge> 70 then ''High''
      else if score \<ge> 35 then ''Medium''
      else ''Low'')"

subsection \<open>Detection\<close>

text \<open>\<^verbatim>\<open>d[k] = v\<close> on a dictionary in insertion order.\<close>

fun dict_set :: "('k \<times> 'v) list \<Rightarrow> 'k \<Rightarrow> 'v \<Rightarrow> ('k \<times> 'v) list" where
  "dict_set [] k v = [(k, v)]"
| "dict_set ((k', v') # d) k v = (if k' = k then (k, v) # d else (k', v') # dict_set d k v)"

text \<open>
  Every detector of \<open>scan_file\<close> ends the same way: if the list \<open>m\<close> of its tokens is not
  empty, the tokens are stored in \<open>hits\<close> and the snippets of their spans in \<open>snippets\<close>.
  The pair \<open>hs\<close> is (\<open>hits\<close>, \<open>snippets\<close>).
\<close>

definition add_detection ::
  "string \<Rightarrow> string \<Rightarrow> string list \<Rightarrow> (nat \<times> nat) list \<Rightarrow> hits_dict \<times> hits_dict
   \<Rightarrow> hits_dict \<times> hits_dict" where
  "add_detection text name m spans hs =
     (if m \<noteq> [] then (dict_set (fst hs) name m, dict_set (snd hs) name (find_snippets text spans 40))
      else hs)"

definition regex_detection ::
  "string \<Rightarrow> string \<times> regex \<Rightarrow> hits_dict \<times> hits_dict \<Rightarrow> hits_dict \<times> hits_dict" where
  "regex_detection text nr hs =
     add_detection text (fst nr) (map (group0 text) (finditer (snd nr) text))
       (map m_span (finditer (snd nr) text)) hs"

text \<open>The CVV matches that pass the proximity test of the loop over \<^verbatim>\<open>CVV_RE.finditer(text)\<close>.\<close>

definition cvv_near :: "string \<Rightarrow> rmatch \<Rightarrow> bool" where
  "cvv_near text x =
     (let snippet = str_lower (slice text (fst x - 10) (fst (snd x) + 10))
      in str_contains ''cvv'' snippet \<or> str_contains ''card'' snippet)"

definition cvv_matches :: "string \<Rightarrow> rmatch list" where
  "cvv_matches text = filter (cvv_near text) (finditer CVV_RE text)"

text \<open>\<^verbatim>\<open>re.sub(r"[ -]", "", s)\<close> and the candidates that pass \<^verbatim>\<open>_luhn_check\<close>.\<close>

definition strip_separators :: "string \<Rightarrow> string" where
  "strip_separators s = filter (\<lambda>c. \<not> is_sep c) s"

definition cc_matches :: "string \<Rightarrow> rmatch list" where
  "cc_matches text =
     filter (\<lambda>m. luhn_check (strip_separators (group0 text m))) (finditer CC_RE text)"

definition cc_valid :: "string \<Rightarrow> string list" where
  "cc_valid text = map (\<lambda>m. strip_separators (group0 text m)) (cc_matches text)"

definition detect :: "string \<Rightarrow> hits_dict \<times> hits_dict" where
  "detect text =
     (let hs = fold (regex_detection text)
                 [(''aadhaar'', AADHAAR_RE), (''pan'', PAN_RE), (''email'', EMAIL_RE),
                  (''phone'', PHONE_RE), (''passport'', PASSPORT_RE)] ([], []);
          hs = add_detection text ''password'' (map (groupn 2 text) (finditer PASSWORD_RE text))
                 (map m_span (finditer PASSWORD_RE text)) hs;
          hs = regex_detection text (''bank_account'', BANK_AC_RE) hs;
          hs = regex_detection text (''ifsc'', IFSC_RE) hs;
          hs = add_detection text ''cvv'' (map (group0 text) (cvv_matches text))
                 (map m_span (cvv_matches text)) hs;
          hs = add_detection text ''credit_card'' (cc_valid text)
                 (map m_span (cc_matches text)) hs
      in hs)"

subsection \<open>\<open>scan_file\<close> and \<open>scan_directory\<close>\<close>

text \<open>The dictionary that \<open>scan_file\<close> returns for a text that is not empty.\<close>

record finding =
  f_hits :: hits_dict
  f_snippets :: hits_dict
  f_confidence :: string
  f_context_score :: real
  f_risk_score :: int
  f_risk_label :: string

text \<open>\<^verbatim>\<open>round(ctx, 3)\<close>\<close>

definition round3 :: "real \<Rightarrow> real" where
  "round3 x = of_int (py_round (x * 1000)) / 1000"

text \<open>The body of \<open>scan_file\<close> once the text is read and is not empty.\<close>

definition scan_text :: "env \<Rightarrow> string \<Rightarrow> exn + finding" where
  "scan_text env text =
     (let hits = fst (detect text);
          snippets = snd (detect text);
          conf = (if hits \<noteq> [] then (if keyword_hits text \<ge> 2 then ''high'' else ''medium'')
                  else ''low'')
      in case context_score env text of
           Inl e \<Rightarrow> Inl e
         | Inr ctx \<Rightarrow>
             (let risk = (if hits = [] then 0 else compute_risk_score hits conf ctx);
                  label = (if hits = [] then ''Low'' else risk_label risk)
              in Inr \<lparr>f_hits = hits, f_snippets = snippets, f_confidence = conf,
                       f_context_score = round3 ctx, f_risk_score = risk,
                       f_risk_label = label\<rparr>))"

text \<open>
  \<open>scan_file\<close> returns the empty dictionary, here \<open>None\<close>, when the text is empty, and
  otherwise a dictionary of six keys, here \<open>Some\<close> finding.
\<close>

definition scan_file :: "env \<Rightarrow> world \<Rightarrow> string \<Rightarrow> exn + finding option" where
  "scan_file env w path =
     (let text = read_file_safe w path 200000 in
      if text = [] then Inr None
      else case scan_text env text of Inl e \<Rightarrow> Inl e | Inr f \<Rightarrow> Inr (Some f))"

text \<open>
  One round of the loop of \<open>scan_directory\<close>: an entry that is not a file is skipped, an
  exception of \<open>scan_file\<close> is caught, and a result is stored only if it is truthy, that is,
  not the empty dictionary.
\<close>

definition scan_step ::
  "env \<Rightarrow> world \<Rightarrow> string \<Rightarrow> (string \<times> finding) list \<Rightarrow> (string \<times> finding) list" where
  "scan_step env w p results =
     (if \<not> is_file w p then results
      else case scan_file env w p of
             Inl e \<Rightarrow> results
           | Inr None \<Rightarrow> results
           | Inr (Some res) \<Rightarrow> dict_set results p res)"

definition scan_directory :: "env \<Rightarrow> world \<Rightarrow> string \<Rightarrow> exn + (string \<times> finding) list" where
  "scan_directory env w root_path =
     (if \<not> path_exists w root_path then Inr []
      else Inr (fold (scan_step env w) (rglob w root_path) []))"

section \<open>Encryption (\<^verbatim>\<open>crypto_utils.py\<close>)\<close>

text \<open>
  The state of the process and of the files it writes: the content of the key file
  \<^verbatim>\<open>data/backup_key.key\<close> if it exists, a counter of the random draws made so far, the files
  and directories written below \<^verbatim>\<open>data/backups\<close> in the order of writing, and the entries of
  \<^verbatim>\<open>metadata.json\<close>.
\<close>

record entry =
  backupName :: string
  sourcePath :: string
  backupPath :: string
  createdAt :: string
  totalFiles :: nat
  sensitiveFiles :: nat
  encryptedFiles :: nat
  avgRiskScore :: real
  riskLabel :: string

record state =
  key_file :: "string option"
  entropy :: nat
  dest_files :: "(string \<times> string) list"
  dest_dirs :: "string list"
  metadata :: "entry list"

text \<open>
  \<^verbatim>\<open>cryptography.fernet\<close> is a library outside the repository: \<open>generate_key\<close> draws a key,
  \<open>valid_key\<close> tells the keys that \<^verbatim>\<open>Fernet(key)\<close> accepts, \<open>fernet_encrypt\<close> takes the
  key, the random draw and the plaintext bytes to the token, \<open>fernet_decrypt\<close> takes the key
  and a token to the plaintext or raises.
\<close>

record fernet_lib =
  generate_key :: "nat \<Rightarrow> string"
  valid_key :: "string \<Rightarrow> bool"
  fernet_encrypt :: "string \<Rightarrow> nat \<Rightarrow> string \<Rightarrow> string"
  fernet_decrypt :: "string \<Rightarrow> string \<Rightarrow> exn + string"

text \<open>
  UTF-8 on code points below 256: one byte below 128, two bytes above. The strict decoder
  raises on any other byte sequence; the sequences that encode code points from 256 on are
  outside the model and are reported as errors too.
\<close>

definition utf8_encode_char :: "char \<Rightarrow> string" where
  "utf8_encode_char c =
     (if codepoint c < 128 then [c]
      else [char_of (192 + codepoint c div 64), char_of (128 + codepoint c mod 64)])"

definition utf8_encode :: "string \<Rightarrow> string" where
  "utf8_encode s = concat (map utf8_encode_char s)"

fun utf8_decode :: "string \<Rightarrow> exn + string" where
  "utf8_decode [] = Inr []"
| "utf8_decode [b] =
     (if codepoint b < 128 then Inr [b] else Inl (Exception ''UnicodeDecodeError''))"
| "utf8_decode (b # b2 # bs) =
     (if codepoint b < 128
      then (case utf8_decode (b2 # bs) of Inl e \<Rightarrow> Inl e | Inr r \<Rightarrow> Inr (b # r))
      else if (codepoint b = 194 \<or> codepoint b = 195) \<and> 128 \<le> codepoint b2 \<and> codepoint b2 < 192
      then (case utf8_decode bs of
              Inl e \<Rightarrow> Inl e
            | Inr r \<Rightarrow> Inr (char_of ((codepoint b - 192) * 64 + (codepoint b2 - 128)) # r))
      else Inl (Exception ''UnicodeDecodeError''))"

definition get_or_create_key :: "fernet_lib \<Rightarrow> state \<Rightarrow> string \<times> state" where
  "get_or_create_key lib s =
     (case key_file s of
        Some key \<Rightarrow> (key, s)
      | None \<Rightarrow>
          (let key = generate_key lib (entropy s)
           in (key, s\<lparr>key_file := Some key, entropy := Suc (entropy s)\<rparr>)))"

definition get_fernet :: "fernet_lib \<Rightarrow> state \<Rightarrow> (exn + string) \<times> state" where
  "get_fernet lib s =
     (let ks = get_or_create_key lib s in
      if valid_key lib (fst ks) then (Inr (fst ks), snd ks)
      else (Inl (ValueError ''Fernet key must be 32 url-safe base64-encoded bytes.''), snd ks))"

definition encrypt_str :: "fernet_lib \<Rightarrow> state \<Rightarrow> string \<Rightarrow> (exn + string) \<times> state" where
  "encrypt_str lib s v =
     (case get_fernet lib s of
        (Inl e, s') \<Rightarrow> (Inl e, s')
      | (Inr f, s') \<Rightarrow>
          (let tok = fernet_encrypt lib f (entropy s') (utf8_encode v);
               s'' = s'\<lparr>entropy := Suc (entropy s')\<rparr>
           in case utf8_decode tok of
                Inl e \<Rightarrow> (Inl e, s'')
              | Inr t \<Rightarrow> (Inr (''<ENC>'' @ t), s'')))"

definition decrypt_str :: "fernet_lib \<Rightarrow> state \<Rightarrow> string \<Rightarrow> (exn + string) \<times> state" where
  "decrypt_str lib s enc_placeholder =
     (if \<not> startswith enc_placeholder ''<ENC>''
      then (Inl (ValueError ''Not an encrypted placeholder''), s)
      else
        (let b64 = drop (length ''<ENC>'') enc_placeholder in
         case get_fernet lib s of
           (Inl e, s') \<Rightarrow> (Inl e, s')
         | (Inr f, s') \<Rightarrow>
             (case fernet_decrypt lib f (utf8_encode b64) of
                Inl e \<Rightarrow> (Inl e, s')
              | Inr plain \<Rightarrow>
                  (case utf8_decode plain of
                     Inl e \<Rightarrow> (Inl e, s')
                   | Inr v \<Rightarrow> (Inr v, s')))))"

section \<open>Redaction and backup (\<^verbatim>\<open>backup_routes.py\<close>)\<close>

text \<open>
  The order in which a \<^verbatim>\<open>set\<close> of strings is iterated is not fixed by Python; \<open>set_order\<close>
  gives, for the list the set is built from, the order of one run.
\<close>

record runtime =
  set_order :: "string list \<Rightarrow> string list"

text \<open>The tokens of all hit lists, empty strings left out (\<^verbatim>\<open>if v\<close>).\<close>

definition collect_tokens :: "hits_dict \<Rightarrow> string list" where
  "collect_tokens hits = concat (map (\<lambda>kv. filter (\<lambda>v. v \<noteq> []) (snd kv)) hits)"

text \<open>\<^verbatim>\<open>sorted(set(tokens), key=lambda s: -len(s))\<close>; the sort is stable.\<close>

definition sorted_tokens :: "runtime \<Rightarrow> hits_dict \<Rightarrow> string list" where
  "sorted_tokens rt hits =
     sort_key (\<lambda>tok. - int (length tok)) (set_order rt (collect_tokens hits))"

fun encrypt_tokens ::
  "fernet_lib \<Rightarrow> string list \<Rightarrow> string \<times> state \<Rightarrow> string \<times> state" where
  "encrypt_tokens lib [] os = os"
| "encrypt_tokens lib (tok # toks) os =
     (case encrypt_str lib (snd os) tok of
        (Inl e, s') \<Rightarrow> encrypt_tokens lib toks (fst os, s')
      | (Inr enc, s') \<Rightarrow> encrypt_tokens lib toks (str_replace (fst os) tok enc, s'))"

definition encrypt_sensitive_in_text ::
  "fernet_lib \<Rightarrow> runtime \<Rightarrow> state \<Rightarrow> string \<Rightarrow> hits_dict \<Rightarrow> string \<times> state" where
  "encrypt_sensitive_in_text lib rt s content hits =
     (if hits = [] then (content, s)
      else encrypt_tokens lib (sorted_tokens rt hits) (content, s))"

subsection \<open>Copying one file\<close>

text \<open>Paths are strings; \<open>a / b\<close> and \<^verbatim>\<open>Path.relative_to\<close>, \<^verbatim>\<open>Path.parent\<close> on them.\<close>

definition joinpath :: "string \<Rightarrow> string \<Rightarrow> string" where
  "joinpath a b = (if b = ''.'' then a else if a = ''.'' then b else a @ ''/'' @ b)"

definition relative_to :: "string \<Rightarrow> string \<Rightarrow> string" where
  "relative_to p base = (if p = base then ''.'' else drop (Suc (length base)) p)"

definition parent :: "string \<Rightarrow> string" where
  "parent p = rev (drop 1 (dropWhile (\<lambda>c. c \<noteq> CHR ''/'') (rev p)))"

definition BACKUP_DIR :: string where
  "BACKUP_DIR = ''data/backups''"

text \<open>\<^verbatim>\<open>shutil.copy2(src, dst)\<close> and \<^verbatim>\<open>dst.write_text(text, encoding="utf-8")\<close>.\<close>

definition copy2 :: "world \<Rightarrow> state \<Rightarrow> string \<Rightarrow> string \<Rightarrow> (exn + unit) \<times> state" where
  "copy2 w s src dst =
     (case read_bytes w src of
        Inl e \<Rightarrow> (Inl e, s)
      | Inr raw \<Rightarrow>
          if write_fails w dst then (Inl (Exception ''OSError''), s)
          else (Inr (), s\<lparr>dest_files := dest_files s @ [(dst, raw)]\<rparr>))"

definition write_text :: "world \<Rightarrow> state \<Rightarrow> string \<Rightarrow> string \<Rightarrow> (exn + unit) \<times> state" where
  "write_text w s dst txt =
     (if write_fails w dst then (Inl (Exception ''OSError''), s)
      else (Inr (), s\<lparr>dest_files := dest_files s @ [(dst, utf8_encode txt)]\<rparr>))"

definition mkdir_parents :: "state \<Rightarrow> string \<Rightarrow> state" where
  "mkdir_parents s d = s\<lparr>dest_dirs := dest_dirs s @ [d]\<rparr>"

text \<open>\<^verbatim>\<open>_is_text_file\<close>: no null byte in the first 2048 bytes, and they decode as UTF-8.\<close>

definition is_text_file :: "world \<Rightarrow> string \<Rightarrow> bool" where
  "is_text_file w path =
     (case read_bytes w path of
        Inl e \<Rightarrow> False
      | Inr raw \<Rightarrow>
          (let chunk = take 2048 raw in
           if char_of (0 :: nat) \<in> set chunk then False
           else (case utf8_decode chunk of Inl e \<Rightarrow> False | Inr t \<Rightarrow> True)))"

text \<open>\<^verbatim>\<open>(password|passwd|pwd)\s*[:=]\s*([^\s,;]{4,40})\<close> with \<^verbatim>\<open>re.IGNORECASE\<close>\<close>

definition pwd_pattern :: regex where
  "pwd_pattern = seqs [
     Grp 1 (alts [re_lit_ci ''password'', re_lit_ci ''passwd'', re_lit_ci ''pwd'']),
     re_star (Cls is_space), Cls (\<lambda>c. c \<in> set '':=''), re_star (Cls is_space),
     Grp 2 (re_between 4 40 (Cls is_token_char))]"

text \<open>The hits guessed when the finding has none.\<close>

definition fallback_hits :: "runtime \<Rightarrow> string \<Rightarrow> hits_dict" where
  "fallback_hits rt txt =
     (let found = map (groupn 2 txt) (finditer pwd_pattern txt);
          extra_hits = (if found \<noteq> [] then dict_set [] ''password'' found else []);
          found = map (group0 txt) (finditer EMAIL_RE txt);
          extra_hits = (if found \<noteq> [] then dict_set extra_hits ''email'' (set_order rt found)
                        else extra_hits)
      in extra_hits)"

text \<open>
  \<^verbatim>\<open>_process_and_copy_file\<close>. \<open>findings_for_file\<close> is \<open>None\<close> when the scan has no entry for
  the file. The result is whether the file was rewritten with placeholders.
\<close>

definition process_and_copy_file ::
  "fernet_lib \<Rightarrow> runtime \<Rightarrow> world \<Rightarrow> state \<Rightarrow> string \<Rightarrow> string \<Rightarrow> finding option
   \<Rightarrow> (exn + bool) \<times> state" where
  "process_and_copy_file lib rt w s0 src dst findings_for_file =
     (let s = mkdir_parents s0 (parent dst);
          copy_plain = (case copy2 w s src dst of
                          (Inl e, s') \<Rightarrow> (Inl e, s')
                        | (Inr u, s') \<Rightarrow> (Inr False, s'))
      in case findings_for_file of
           None \<Rightarrow> copy_plain
         | Some f \<Rightarrow>
             if f_risk_label f \<noteq> ''Medium'' \<and> f_risk_label f \<noteq> ''High'' then copy_plain
             else if \<not> is_text_file w src then copy_plain
             else (case read_bytes w src of
                     Inl e \<Rightarrow> copy_plain
                   | Inr raw \<Rightarrow>
                       (let txt = decode_ignore w raw;
                            hits = (if f_hits f = [] then fallback_hits rt txt else f_hits f);
                            ns = encrypt_sensitive_in_text lib rt s txt hits
                        in case write_text w (snd ns) dst (fst ns) of
                             (Inr u, s') \<Rightarrow> (Inr True, s')
                           | (Inl e, s') \<Rightarrow>
                               (case copy2 w s' src dst of
                                  (Inl e', s'') \<Rightarrow> (Inl e', s'')
                                | (Inr u, s'') \<Rightarrow> (Inr False, s'')))))"

subsection \<open>\<open>create_backup\<close>\<close>

text \<open>
  The loop over the files of one directory of \<^verbatim>\<open>os.walk\<close>, and the loop over the
  directories. The accumulator holds \<open>encrypted_files_count\<close> and \<open>total_copied\<close>. An
  exception of \<open>process_and_copy_file\<close> is caught and the file copied as it is; an exception
  of that second copy ends \<open>create_backup\<close>.
\<close>

fun copy_files ::
  "fernet_lib \<Rightarrow> runtime \<Rightarrow> world \<Rightarrow> (string \<times> finding) list \<Rightarrow> string \<Rightarrow> string
   \<Rightarrow> string list \<Rightarrow> (nat \<times> nat) \<times> state \<Rightarrow> (exn + nat \<times> nat) \<times> state" where
  "copy_files lib rt w findings root_dir dest_dir [] acc = (Inr (fst acc), snd acc)"
| "copy_files lib rt w findings root_dir dest_dir (fn # fns) acc =
     (let src_file = joinpath root_dir fn;
          rel_dest = joinpath dest_dir fn;
          findings_for_file = map_of findings src_file;
          counts = fst acc
      in case process_and_copy_file lib rt w (snd acc) src_file rel_dest findings_for_file of
           (Inr encrypted, s') \<Rightarrow>
             copy_files lib rt w findings root_dir dest_dir fns
               ((if encrypted then Suc (fst counts) else fst counts, Suc (snd counts)), s')
         | (Inl e, s') \<Rightarrow>
             (case copy2 w (mkdir_parents s' (parent rel_dest)) src_file rel_dest of
                (Inl e', s'') \<Rightarrow> (Inl e', s'')
              | (Inr u, s'') \<Rightarrow>
                  copy_files lib rt w findings root_dir dest_dir fns
                    ((fst counts, Suc (snd counts)), s'')))"

fun copy_tree ::
  "fernet_lib \<Rightarrow> runtime \<Rightarrow> world \<Rightarrow> (string \<times> finding) list \<Rightarrow> string \<Rightarrow> string
   \<Rightarrow> (string \<times> string list) list \<Rightarrow> (nat \<times> nat) \<times> state \<Rightarrow> (exn + nat \<times> nat) \<times> state" where
  "copy_tree lib rt w findings source backup_path [] acc = (Inr (fst acc), snd acc)"
| "copy_tree lib rt w findings source backup_path (rf # rest) acc =
     (let rel_root = relative_to (fst rf) source in
      case copy_files lib rt w findings (fst rf) (joinpath backup_path rel_root) (snd rf) acc of
        (Inl e, s') \<Rightarrow> (Inl e, s')
      | (Inr counts, s') \<Rightarrow> copy_tree lib rt w findings source backup_path rest (counts, s'))"

text \<open>\<^verbatim>\<open>round(avg_score, 2)\<close>\<close>

definition round2 :: "real \<Rightarrow> real" where
  "round2 x = of_int (py_round (x * 100)) / 100"

text \<open>
  The request body: \<^verbatim>\<open>payload.get("sourcePath")\<close> and \<^verbatim>\<open>payload.get("backupName")\<close> are
  \<open>None\<close> when the key is absent. A value is falsy when it is \<open>None\<close> or the empty string.
\<close>

record payload =
  p_sourcePath :: "string option"
  p_backupName :: "string option"

definition falsy :: "string option \<Rightarrow> bool" where
  "falsy v = (v = None \<or> v = Some [])"

definition create_backup ::
  "fernet_lib \<Rightarrow> runtime \<Rightarrow> env \<Rightarrow> world \<Rightarrow> state \<Rightarrow> payload
   \<Rightarrow> (exn + string \<times> entry) \<times> state" where
  "create_backup lib rt env w s pl =
     (if falsy (p_sourcePath pl) \<or> falsy (p_backupName pl)
      then (Inl (HTTPException 400 ''sourcePath and backupName required''), s)
      else
        (let source = the (p_sourcePath pl);
             name = the (p_backupName pl)
         in if \<not> path_exists w source
            then (Inl (HTTPException 400 ''Source path does not exist''), s)
            else
              (let backup_path = joinpath BACKUP_DIR name in
               if path_exists w backup_path
               then (Inl (HTTPException 400 ''Backup name already exists''), s)
               else
                 (let s1 = snd (get_or_create_key lib s) in
                  case scan_directory env w source of
                    Inl e \<Rightarrow> (Inl e, s1)
                  | Inr findings \<Rightarrow>
                      (case copy_tree lib rt w findings source backup_path (walk w source)
                              ((0, 0), s1) of
                         (Inl e, s2) \<Rightarrow> (Inl e, s2)
                       | (Inr counts, s2) \<Rightarrow>
                           (let total_files = snd counts;
                                sensitive_files = length findings;
                                avg_score =
                                  (if sensitive_files > 0
                                   then real_of_int (sum_list (map (\<lambda>kv. f_risk_score (snd kv)) findings))
                                          / real sensitive_files
                                   else 0);
                                label = (if avg_score \<ge> 70 then ''High''
                                         else if avg_score \<ge> 35 then ''Medium'' else ''Low'');
                                ent = \<lparr>backupName = name, sourcePath = abspath w source,
                                       backupPath = backup_path, createdAt = now_isoformat w,
                                       totalFiles = total_files,
                                       sensitiveFiles = sensitive_files,
                                       encryptedFiles = fst counts,
                                       avgRiskScore = round2 avg_score, riskLabel = label\<rparr>
                            in (Inr (''Backup created successfully'', ent),
                                s2\<lparr>metadata := metadata s2 @ [ent]\<rparr>)))))))"

section \<open>Properties of the risk score\<close>








section \<open>Dictionaries and the hits of a text\<close>

lemma map_of_dict_set:
  "map_of (dict_set d k v) k' = (if k' = k then Some v else map_of d k')"
  by (induction d) auto

lemma map_fst_dict_set_eq:
  "map fst (dict_set d k v) = (if k \<in> set (map fst d) then map fst d else map fst d @ [k])"
  by (induction d) force+

lemma keys_dict_set: "fst ` set (dict_set d k v) = insert k (fst ` set d)"
proof -
  have "set (map fst (dict_set d k v)) = insert k (set (map fst d))"
    unfolding map_fst_dict_set_eq by auto
  then show ?thesis by simp
qed

lemma distinct_dict_set:
  "distinct (map fst d) \<Longrightarrow> distinct (map fst (dict_set d k v))"
  unfolding map_fst_dict_set_eq by auto

lemma dict_set_not_Nil: "dict_set d k v \<noteq> []"
  by (cases d) (auto split: if_splits)

lemma map_fst_dict_set:
  "map fst d = map fst d' \<Longrightarrow> map fst (dict_set d k v) = map fst (dict_set d' k v')"
  unfolding map_fst_dict_set_eq by simp

definition hs_ok :: "hits_dict \<times> hits_dict \<Rightarrow> bool" where
  "hs_ok hs = (map fst (fst hs) = map fst (snd hs) \<and> distinct (map fst (fst hs))
               \<and> (\<forall>(k, vs) \<in> set (fst hs). vs \<noteq> []))"

lemma set_dict_set_subset: "set (dict_set d k v) \<subseteq> insert (k, v) (set d)"
  by (induction d) (auto split: if_splits)

lemma hs_ok_add_detection: "hs_ok hs \<Longrightarrow> hs_ok (add_detection text name m spans hs)"
  using set_dict_set_subset [of "fst hs" name m]
  unfolding hs_ok_def add_detection_def
  by (auto simp: distinct_dict_set intro: map_fst_dict_set)

lemma hs_ok_regex_detection: "hs_ok hs \<Longrightarrow> hs_ok (regex_detection text nr hs)"
  by (simp add: regex_detection_def hs_ok_add_detection)

lemma hs_ok_fold: "hs_ok hs \<Longrightarrow> hs_ok (fold (regex_detection text) nrs hs)"
  by (induction nrs arbitrary: hs) (auto simp: hs_ok_regex_detection)

lemma hs_ok_detect: "hs_ok (detect text)"
proof -
  have "hs_ok ([], [])" by (simp add: hs_ok_def)
  then show ?thesis
    unfolding detect_def Let_def
    by (intro hs_ok_add_detection hs_ok_regex_detection hs_ok_fold)
qed

lemma detect_snippets_empty: "fst (detect text) = [] \<Longrightarrow> snd (detect text) = []"
  using hs_ok_detect [of "text"] by (auto simp: hs_ok_def)

lemma lookup_add_detection:
  "map_of (fst (add_detection text name m spans hs)) k =
     (if k = name \<and> m \<noteq> [] then Some m else map_of (fst hs) k)"
  by (simp add: add_detection_def map_of_dict_set)

lemma lookup_regex_detection:
  "map_of (fst (regex_detection text nr hs)) k =
     (if k = fst nr \<and> finditer (snd nr) text \<noteq> [] then Some (map (group0 text) (finditer (snd nr) text))
      else map_of (fst hs) k)"
  by (simp add: regex_detection_def lookup_add_detection)



lemma detect_bank_account:
  "map_of (fst (detect text)) ''bank_account'' =
     (if finditer BANK_AC_RE text = [] then None
      else Some (map (group0 text) (finditer BANK_AC_RE text)))"
  by (simp add: detect_def Let_def lookup_add_detection lookup_regex_detection)

lemma detect_aadhaar:
  "map_of (fst (detect text)) ''aadhaar'' =
     (if finditer AADHAAR_RE text = [] then None
      else Some (map (group0 text) (finditer AADHAAR_RE text)))"
  by (simp add: detect_def Let_def lookup_add_detection lookup_regex_detection)

section \<open>Properties of the matcher\<close>







lemma match_at_in_ends: "match_at r t i = Some s \<Longrightarrow> s \<in> set (ends r t (i, []))"
  by (auto simp: match_at_def split: list.splits)

lemma finditer_from_sound:
  "m \<in> set (finditer_from r t k) \<Longrightarrow>
     k \<le> fst m \<and> fst m \<le> length t \<and> match_at r t (fst m) = Some (snd m)"
proof (induction r t k rule: finditer_from.induct)
  case (1 r t i)
  show ?case
  proof (cases "length t < i")
    case True
    with "1.prems" show ?thesis by (subst (asm) finditer_from.simps) simp
  next
    case False
    show ?thesis
    proof (cases "match_at r t i")
      case None
      with False "1.prems" have "m \<in> set (finditer_from r t (Suc i))"
        by (subst (asm) finditer_from.simps) simp
      with "1.IH"(1) [OF False None] show ?thesis by simp
    next
      case (Some s)
      obtain e c where s: "s = (e, c)" by (cases s)
      with False Some "1.prems"
      have "m = (i, e, c) \<or> m \<in> set (finditer_from r t (max e (Suc i)))"
        by (subst (asm) finditer_from.simps) auto
      then show ?thesis
      proof
        assume "m = (i, e, c)"
        with False Some s show ?thesis by simp
      next
        assume "m \<in> set (finditer_from r t (max e (Suc i)))"
        with "1.IH"(2) [OF False Some s [symmetric]] show ?thesis by simp
      qed
    qed
  qed
qed

lemma finditer_from_complete:
  "match_at r t i = Some (e, c) \<Longrightarrow> k \<le> i \<Longrightarrow> i \<le> length t \<Longrightarrow>
   \<forall>j e' c'. k \<le> j \<and> j < i \<and> match_at r t j = Some (e', c') \<longrightarrow> e' \<le> i \<Longrightarrow>
   (i, e, c) \<in> set (finditer_from r t k)"
proof (induction r t k rule: finditer_from.induct)
  case (1 r t k)
  from "1.prems" have nl: "\<not> length t < k" by simp
  show ?case
  proof (cases "k = i")
    case True
    with "1.prems" nl show ?thesis by (subst finditer_from.simps) simp
  next
    case False
    with "1.prems" have lt: "k < i" by simp
    show ?thesis
    proof (cases "match_at r t k")
      case None
      have "\<forall>j e' c'. Suc k \<le> j \<and> j < i \<and> match_at r t j = Some (e', c') \<longrightarrow> e' \<le> i"
        using "1.prems"(4) by (meson Suc_leD)
      then have "(i, e, c) \<in> set (finditer_from r t (Suc k))"
        using "1.IH"(1) [OF nl None] "1.prems"(1,3) lt by simp
      with None nl show ?thesis by (subst finditer_from.simps) simp
    next
      case (Some s)
      obtain e' c' where s: "s = (e', c')" by (cases s)
      have "e' \<le> i" using "1.prems"(4) lt Some s by blast
      then have m: "max e' (Suc k) \<le> i" using lt by simp
      have "\<forall>j e'' c''. max e' (Suc k) \<le> j \<and> j < i \<and> match_at r t j = Some (e'', c'')
              \<longrightarrow> e'' \<le> i"
        using "1.prems"(4) by (meson Suc_leD max.boundedE)
      then have "(i, e, c) \<in> set (finditer_from r t (max e' (Suc k)))"
        using "1.IH"(2) [OF nl Some s [symmetric]] "1.prems"(1,3) m by simp
      with Some s nl show ?thesis by (subst finditer_from.simps) simp
    qed
  qed
qed

subsection \<open>Runs of one character class\<close>

definition run :: "(char \<Rightarrow> bool) \<Rightarrow> string \<Rightarrow> nat \<Rightarrow> nat" where
  "run P t i = length (takeWhile P (drop i t))"

lemma run_step:
  "run P t i = (if i < length t \<and> P (t ! i) then Suc (run P t (Suc i)) else 0)"
proof (cases "i < length t")
  case True
  then have "drop i t = t ! i # drop (Suc i) t" by (simp add: Cons_nth_drop_Suc)
  then show ?thesis using True by (simp add: run_def)
next
  case False
  then show ?thesis by (simp add: run_def)
qed

lemma run_le:
  "k \<le> run P t i \<Longrightarrow> i \<le> length t \<Longrightarrow> i + k \<le> length t \<and> (\<forall>j < k. P (t ! (i + j)))"
proof (induction k arbitrary: i)
  case 0
  then show ?case by simp
next
  case (Suc k)
  from Suc.prems have h: "i < length t" "P (t ! i)" "k \<le> run P t (Suc i)"
    by (auto simp: run_step [of P t i] split: if_splits)
  from Suc.IH [OF h(3)] h(1) have "Suc i + k \<le> length t" "\<forall>j < k. P (t ! (Suc i + j))"
    by auto
  then show ?case using h(2) by (auto simp: less_Suc_eq_0_disj)
qed

lemma run_stop: "i + run P t i < length t \<Longrightarrow> \<not> P (t ! (i + run P t i))"
proof -
  assume a: "i + run P t i < length t"
  then have "length (takeWhile P (drop i t)) < length (drop i t)" by (simp add: run_def)
  then have "\<not> P (drop i t ! length (takeWhile P (drop i t)))" by (rule nth_length_takeWhile)
  then show ?thesis using a by (simp add: run_def)
qed

fun down :: "nat \<Rightarrow> nat \<Rightarrow> nat list" where
  "down 0 lo = (if lo = 0 then [0] else [])"
| "down (Suc m) lo = (if lo \<le> Suc m then Suc m # down m lo else [])"

lemma set_down: "set (down m lo) = {lo..m}"
  by (induction m) auto

lemma down_head: "lo \<le> m \<Longrightarrow> \<exists>rest. down m lo = m # rest"
  by (cases m) auto

lemma down_Suc: "down (Suc m) lo = map Suc (down m (lo - 1)) @ (if lo = 0 then [0] else [])"
  by (induction m) auto

lemma rep_cls_gen:
  assumes f: "\<And>i c. f (i, c) = (if i < length t \<and> P (t ! i) then [(Suc i, c)] else [])"
  shows "rep f lo h True (i, c) = map (\<lambda>k. (i + k, c)) (down (min h (run P t i)) lo)"
proof (induction h arbitrary: lo i)
  case 0
  then show ?case by simp
next
  case (Suc h)
  show ?case
  proof (cases "i < length t \<and> P (t ! i)")
    case False
    then have "run P t i = 0" by (simp add: run_step [of P t i])
    moreover have "f (i, c) = []" using False by (auto simp: f)
    ultimately show ?thesis by (simp add: Let_def)
  next
    case True
    then have r: "min (Suc h) (run P t i) = Suc (min h (run P t (Suc i)))"
      by (simp add: run_step [of P t i])
    have more: "rep f (lo - 1) h True (Suc i, c) =
                  map (\<lambda>k. (Suc i + k, c)) (down (min h (run P t (Suc i))) (lo - 1))"
      by (rule Suc.IH)
    have "f (i, c) = [(Suc i, c)]" using True by (simp add: f)
    then have "rep f lo (Suc h) True (i, c) =
            rep f (lo - 1) h True (Suc i, c) @ (if lo = 0 then [(i, c)] else [])"
      by (simp add: Let_def)
    also have "\<dots> = map (\<lambda>k. (i + k, c)) (down (Suc (min h (run P t (Suc i)))) lo)"
      unfolding more down_Suc by (simp add: o_def)
    finally show ?thesis unfolding r .
  qed
qed

lemma ends_Rep_Cls:
  "ends (Rep lo (Some hi) True (Cls P)) t (i, c) =
     map (\<lambda>k. (i + k, c)) (down (min hi (run P t i)) lo)"
proof -
  have "rep (ends (Cls P) t) lo hi True (i, c) =
          map (\<lambda>k. (i + k, c)) (down (min hi (run P t i)) lo)"
    by (rule rep_cls_gen) simp
  then show ?thesis by (simp only: ends.simps option.case)
qed

definition bdigits :: "nat \<Rightarrow> nat \<Rightarrow> regex" where
  "bdigits lo hi = Seq Bnd (Seq (Rep lo (Some hi) True (Cls is_digit)) Bnd)"

lemma AADHAAR_RE_bdigits: "AADHAAR_RE = bdigits 12 12"
  by (simp add: AADHAAR_RE_def bdigits_def re_exactly_def re_digit_def)

lemma BANK_AC_RE_bdigits: "BANK_AC_RE = bdigits 9 18"
  by (simp add: BANK_AC_RE_def bdigits_def re_between_def re_digit_def)


lemma concat_map_if_filter:
  "concat (map (\<lambda>s. if Q s then [s] else []) xs) = filter Q xs"
  by (induction xs) auto

lemma ends_Seq_Bnd:
  "ends (Seq a Bnd) t s = filter (\<lambda>s'. at_boundary t (fst s')) (ends a t s)"
proof -
  have "ends Bnd t = (\<lambda>s. if at_boundary t (fst s) then [s] else [])"
    by (auto simp: fun_eq_iff)
  then have "concat (map (ends Bnd t) (ends a t s)) =
               filter (\<lambda>s'. at_boundary t (fst s')) (ends a t s)"
    by (simp only: concat_map_if_filter)
  then show ?thesis by (simp only: ends.simps)
qed

lemma ends_Bnd_Seq:
  "ends (Seq Bnd b) t (i, c) = (if at_boundary t i then ends b t (i, c) else [])"
  by simp

lemma ends_bdigits:
  "ends (bdigits lo hi) t (i, c) =
     (if at_boundary t i
      then filter (\<lambda>s. at_boundary t (fst s))
             (map (\<lambda>k. (i + k, c)) (down (min hi (run is_digit t i)) lo))
      else [])"
  unfolding bdigits_def ends_Bnd_Seq ends_Seq_Bnd ends_Rep_Cls ..

lemma match_at_bdigits:
  assumes "match_at (bdigits lo hi) t i = Some (e, c)" and "i \<le> length t"
  shows "c = [] \<and> at_boundary t i \<and> at_boundary t e \<and> i + lo \<le> e \<and> e \<le> i + hi
         \<and> e \<le> length t \<and> e \<le> i + run is_digit t i
         \<and> (\<forall>j. i \<le> j \<and> j < e \<longrightarrow> is_digit (t ! j))"
proof -
  from assms(1) have "(e, c) \<in> set (ends (bdigits lo hi) t (i, []))"
    by (rule match_at_in_ends)
  then obtain k where k: "at_boundary t i" "at_boundary t e" "e = i + k" "c = []"
      "lo \<le> k" "k \<le> hi" "k \<le> run is_digit t i"
    by (auto simp: ends_bdigits set_down split: if_splits)
  from run_le [OF k(7) assms(2)]
  have r: "i + k \<le> length t" "\<forall>j < k. is_digit (t ! (i + j))" by auto
  have "\<forall>j. i \<le> j \<and> j < e \<longrightarrow> is_digit (t ! j)"
  proof (intro allI impI)
    fix j assume "i \<le> j \<and> j < e"
    then have "j - i < k" "j = i + (j - i)" using k(3) by auto
    with r(2) show "is_digit (t ! j)" by metis
  qed
  with k r(1) show ?thesis by simp
qed

section \<open>Findings without hits\<close>

text \<open>An environment without the optional models, and a directory with one small file.\<close>

definition example_env :: env where
  "example_env = \<lparr>HAS_AI = False, ai_similarity = (\<lambda>t. Inr 0), HAS_ML = False,
                    load_ml_model = Inr None\<rparr>"

definition example_world :: world where
  "example_world =
     \<lparr>path_exists = (\<lambda>p. p \<in> set [''/data'', ''/data/notes.txt'', ''/data/sub'',
                                     ''/data/locked.txt'', ''/empty'']),
      rglob = (\<lambda>p. if p = ''/data''
                   then [''/data/notes.txt'', ''/data/sub'', ''/data/locked.txt''] else []),
      is_file = (\<lambda>p. p = ''/data/notes.txt'' \<or> p = ''/data/locked.txt''),
      read_bytes = (\<lambda>p. if p = ''/data/notes.txt'' then Inr ''hi''
                        else Inl (Exception ''PermissionError'')),
      decode_ignore = (\<lambda>b. b),
      walk = (\<lambda>p. if p = ''/data''
                  then [(''/data'', [''notes.txt'', ''locked.txt'']), (''/data/sub'', [])]
                  else []),
      write_fails = (\<lambda>p. False),
      abspath = (\<lambda>p. p),
      now_isoformat = ''2024-01-01T00:00:00''\<rparr>"

lemma example_read: "read_file_safe example_world ''/data/notes.txt'' 200000 = ''hi''"
  by (simp add: read_file_safe_def example_world_def)

lemma example_detect: "fst (detect ''hi'') = []"
  by code_simp

lemma example_keywords: "keyword_hits ''hi'' = 0"
  by code_simp

lemma example_context: "context_score example_env ''hi'' = Inr 0"
  by (simp add: context_score_def compute_context_score_ai_def predict_context_ml_def
      example_env_def example_keywords Let_def)

lemma scan_file_empty_hits:
  assumes "read_file_safe w path 200000 \<noteq> []"
    and "fst (detect (read_file_safe w path 200000)) = []"
    and "context_score env (read_file_safe w path 200000) = Inr ctx"
  shows "scan_file env w path =
           Inr (Some \<lparr>f_hits = [], f_snippets = [], f_confidence = ''low'',
                      f_context_score = round3 ctx, f_risk_score = 0, f_risk_label = ''Low''\<rparr>)"
  using assms detect_snippets_empty [OF assms(2)]
  by (simp add: scan_file_def scan_text_def Let_def)

text \<open>
  Claim C1. For a scanned file whose text is not empty and in which no detector produced
  a hit (the \<open>hits\<close> dictionary of the text is empty), and whose context score is computed
  as \<open>ctx\<close>, \<open>scan_file\<close> returns a finding with \<open>risk_score = 0\<close> and
  \<open>risk_label = "Low"\<close>, whatever \<open>ctx\<close> is; its \<open>hits\<close> and \<open>snippets\<close> are empty and its
  confidence is "low".
\<close>

theorem scan_file_no_hits:
  assumes "read_file_safe w path 200000 \<noteq> []"
    and "fst (detect (read_file_safe w path 200000)) = []"
    and "context_score env (read_file_safe w path 200000) = Inr ctx"
  shows "scan_file env w path =
           Inr (Some \<lparr>f_hits = [], f_snippets = [], f_confidence = ''low'',
                      f_context_score = round3 ctx, f_risk_score = 0, f_risk_label = ''Low''\<rparr>)"
  using assms by (rule scan_file_empty_hits)

theorem scan_file_no_hits_witness:
  "read_file_safe example_world ''/data/notes.txt'' 200000 \<noteq> []
   \<and> fst (detect (read_file_safe example_world ''/data/notes.txt'' 200000)) = []
   \<and> context_score example_env (read_file_safe example_world ''/data/notes.txt'' 200000) = Inr 0
   \<and> scan_file example_env example_world ''/data/notes.txt'' =
       Inr (Some \<lparr>f_hits = [], f_snippets = [], f_confidence = ''low'',
                  f_context_score = round3 0, f_risk_score = 0, f_risk_label = ''Low''\<rparr>)"
proof -
  have a: "read_file_safe example_world ''/data/notes.txt'' 200000 \<noteq> []"
    by (simp add: example_read)
  have b: "fst (detect (read_file_safe example_world ''/data/notes.txt'' 200000)) = []"
    by (simp add: example_read example_detect)
  have c: "context_score example_env (read_file_safe example_world ''/data/notes.txt'' 200000)
             = Inr 0"
    by (simp add: example_read example_context)
  show ?thesis
    using a b c scan_file_no_hits [OF a b c] by simp
qed

section \<open>The CVV and credit-card detectors\<close>


lemma length_slice: "e \<le> length t \<Longrightarrow> length (slice t s e) = e - s"
  by (simp add: slice_def)

lemma finditer_sound:
  "(s, e, c) \<in> set (finditer r t) \<Longrightarrow> s \<le> length t \<and> match_at r t s = Some (e, c)"
  using finditer_from_sound [of "(s, e, c)" r t 0] by (simp add: finditer_def)

lemma is_digit_word: "is_digit c \<Longrightarrow> is_word c"
  by (simp add: is_word_def)






subsection \<open>Credit cards\<close>








section \<open>Aadhaar numbers and bank accounts\<close>

lemma match_at_hd:
  "ends r t (i, []) = s # rest \<Longrightarrow> match_at r t i = Some s"
  by (simp add: match_at_def)

lemma not_boundary_between_words:
  "0 < i \<Longrightarrow> i < length t \<Longrightarrow> is_word (t ! (i - 1)) \<Longrightarrow> is_word (t ! i) \<Longrightarrow> \<not> at_boundary t i"
  by (simp add: at_boundary_def)

lemma aadhaar_match_is_bank_match:
  assumes s: "s \<le> length t" and m: "match_at AADHAAR_RE t s = Some (e, c)"
  shows "match_at BANK_AC_RE t s = Some (e, c) \<and> e = s + 12 \<and> c = []"
proof -
  from match_at_bdigits [OF m [unfolded AADHAAR_RE_bdigits] s]
  have p: "c = []" "at_boundary t s" "at_boundary t e" "e = s + 12" "e \<le> length t"
    "e \<le> s + run is_digit t s" "\<forall>j. s \<le> j \<and> j < e \<longrightarrow> is_digit (t ! j)"
    by auto
  have ge: "12 \<le> run is_digit t s" using p(4,6) by simp
  have le: "run is_digit t s \<le> 12"
  proof (rule ccontr)
    assume "\<not> run is_digit t s \<le> 12"
    then have "13 \<le> run is_digit t s" by simp
    from run_le [OF this s] have l: "s + 13 \<le> length t" and d: "is_digit (t ! (s + 12))"
      by auto
    have "is_digit (t ! (s + 11))" using p(4,7) by simp
    then have "is_word (t ! (s + 11))" by (rule is_digit_word)
    then have "is_word (t ! (s + 12 - 1))" by (simp add: add.commute)
    moreover have "is_word (t ! (s + 12))" using d by (rule is_digit_word)
    ultimately have "\<not> at_boundary t (s + 12)"
      using l by (intro not_boundary_between_words) auto
    with p(3,4) show False by simp
  qed
  from ge le have r: "run is_digit t s = 12" by simp
  obtain rest where "down (min 18 (run is_digit t s)) 9 = 12 # rest"
    using down_head [of 9 12] r by auto
  then have "ends (bdigits 9 18) t (s, []) =
               (s + 12, []) # filter (\<lambda>x. at_boundary t (fst x)) (map (\<lambda>k. (s + k, [])) rest)"
    using p(2,3,4) by (simp add: ends_bdigits)
  then have "match_at (bdigits 9 18) t s = Some (s + 12, [])" by (rule match_at_hd)
  with p(1,4) show ?thesis by (simp add: BANK_AC_RE_bdigits)
qed

lemma bank_match_before:
  assumes s: "s \<le> length t" and m: "match_at AADHAAR_RE t s = Some (e, c)"
    and j: "j < s" and b: "match_at BANK_AC_RE t j = Some (e', c')"
  shows "e' \<le> s"
proof (rule ccontr)
  assume "\<not> e' \<le> s"
  then have gt: "s < e'" by simp
  from match_at_bdigits [OF m [unfolded AADHAAR_RE_bdigits] s]
  have p: "at_boundary t s" "e = s + 12" "e \<le> length t"
    "\<forall>k. s \<le> k \<and> k < e \<longrightarrow> is_digit (t ! k)" by auto
  from j s have "j \<le> length t" by simp
  from match_at_bdigits [OF b [unfolded BANK_AC_RE_bdigits] this]
  have q: "\<forall>k. j \<le> k \<and> k < e' \<longrightarrow> is_digit (t ! k)" by auto
  have "j \<le> s - 1 \<and> s - 1 < e'" using j gt by auto
  with q have "is_digit (t ! (s - 1))" by blast
  then have w1: "is_word (t ! (s - 1))" by (rule is_digit_word)
  have "is_digit (t ! s)" using p(2,4) by simp
  then have w2: "is_word (t ! s)" by (rule is_digit_word)
  have "s < length t" using p(2,3) by simp
  with j w1 w2 have "\<not> at_boundary t s" by (intro not_boundary_between_words) auto
  with p(1) show False by simp
qed

lemma aadhaar_matches_in_bank_matches:
  assumes "m \<in> set (finditer AADHAAR_RE t)"
  shows "m \<in> set (finditer BANK_AC_RE t) \<and> fst (snd m) = fst m + 12"
proof -
  obtain s e c where sec: "m = (s, e, c)" by (cases m) auto
  from finditer_sound [of s e c AADHAAR_RE t] assms sec
  have s: "s \<le> length t" and ma: "match_at AADHAAR_RE t s = Some (e, c)" by auto
  from aadhaar_match_is_bank_match [OF s ma]
  have mb: "match_at BANK_AC_RE t s = Some (e, c)" and e: "e = s + 12" by auto
  have "\<forall>j e' c'. 0 \<le> j \<and> j < s \<and> match_at BANK_AC_RE t j = Some (e', c') \<longrightarrow> e' \<le> s"
    using bank_match_before [OF s ma] by blast
  from finditer_from_complete [OF mb _ s this]
  have "(s, e, c) \<in> set (finditer BANK_AC_RE t)" by (simp add: finditer_def)
  with sec e show ?thesis by simp
qed

lemma two_keys_length:
  "map_of d k1 = Some a \<Longrightarrow> map_of d k2 = Some b \<Longrightarrow> k1 \<noteq> k2 \<Longrightarrow> 2 \<le> length d"
  by (cases d; cases "tl d") (auto split: if_splits)

lemma aadhaar_example: "finditer AADHAAR_RE ''123456789012'' = [(0, 12, [])]"
  by code_simp

text \<open>
  Claim C10. Every match of the aadhaar pattern is a run of 12 characters that the
  bank-account pattern matches at the same span. Hence a finding with an "aadhaar" hit has
  a "bank_account" hit with the same tokens, its \<open>hits\<close> dictionary has at least two keys,
  and that number of keys is the one that \<open>compute_risk_score\<close> multiplies by 20.
\<close>

theorem aadhaar_implies_bank_account:
  "(\<forall>m \<in> set (finditer AADHAAR_RE text).
       m \<in> set (finditer BANK_AC_RE text) \<and> fst (snd m) = fst m + 12)
   \<and> (\<forall>toks. map_of (fst (detect text)) ''aadhaar'' = Some toks \<longrightarrow>
         (\<exists>btoks. map_of (fst (detect text)) ''bank_account'' = Some btoks
                   \<and> set toks \<subseteq> set btoks)
         \<and> 2 \<le> length (fst (detect text))
         \<and> (\<forall>conf ctx. compute_risk_score (fst (detect text)) conf ctx =
               max 0 (min 100 (py_round
                  (of_int (20 * int (length (fst (detect text))) + conf_boost conf) * (1 + ctx))))))"
proof (intro conjI ballI allI impI)
  fix m assume "m \<in> set (finditer AADHAAR_RE text)"
  then show "m \<in> set (finditer BANK_AC_RE text)" "fst (snd m) = fst m + 12"
    using aadhaar_matches_in_bank_matches by auto
next
  fix toks assume a: "map_of (fst (detect text)) ''aadhaar'' = Some toks"
  then have ne: "finditer AADHAAR_RE text \<noteq> []"
    and toks: "toks = map (group0 text) (finditer AADHAAR_RE text)"
    by (auto simp: detect_aadhaar split: if_splits)
  have sub: "set (finditer AADHAAR_RE text) \<subseteq> set (finditer BANK_AC_RE text)"
    using aadhaar_matches_in_bank_matches by auto
  with ne have nb: "finditer BANK_AC_RE text \<noteq> []" by (cases "finditer AADHAAR_RE text") auto
  then have b: "map_of (fst (detect text)) ''bank_account'' =
                  Some (map (group0 text) (finditer BANK_AC_RE text))"
    by (simp add: detect_bank_account)
  show "\<exists>btoks. map_of (fst (detect text)) ''bank_account'' = Some btoks \<and> set toks \<subseteq> set btoks"
    using b sub toks by auto
  show "2 \<le> length (fst (detect text))"
    using two_keys_length [OF a b] by simp
next
  fix toks conf ctx
  show "compute_risk_score (fst (detect text)) conf ctx =
          max 0 (min 100 (py_round
            (of_int (20 * int (length (fst (detect text))) + conf_boost conf) * (1 + ctx))))"
    by (simp add: compute_risk_score_def Let_def)
qed

theorem aadhaar_implies_bank_account_witness:
  "(0, 12, []) \<in> set (finditer AADHAAR_RE ''123456789012'')
   \<and> (0, 12, []) \<in> set (finditer BANK_AC_RE ''123456789012'')
   \<and> map_of (fst (detect ''123456789012'')) ''aadhaar'' = Some [''123456789012'']
   \<and> (\<exists>btoks. map_of (fst (detect ''123456789012'')) ''bank_account'' = Some btoks
                 \<and> set [''123456789012''] \<subseteq> set btoks)
   \<and> 2 \<le> length (fst (detect ''123456789012''))"
proof -
  have a: "(0, 12, []) \<in> set (finditer AADHAAR_RE ''123456789012'')"
    by (simp add: aadhaar_example)
  have b: "map_of (fst (detect ''123456789012'')) ''aadhaar'' = Some [''123456789012'']"
    by (simp add: detect_aadhaar aadhaar_example group0_def slice_def)
  show ?thesis
    using a b aadhaar_implies_bank_account [of "''123456789012''"] by blast
qed

section \<open>Scanning a directory\<close>



















end
